theory Spec2Isabelle
  imports Main "HOL-Library.Multiset" "HOL-Library.List_Lexorder" "HOL-Library.Char_ord"
    "HOL-Library.Word"
begin

section \<open>The chat backend of main.py\<close>

text \<open>
  A shallow embedding of \<^verbatim>\<open>src/main.py\<close>: a FastAPI application over one SQLite
  database (\<^verbatim>\<open>chat_app.db\<close>) that registers users, stores push tokens and chat messages
  and fans a push notification out to every stored token.

  What lies outside the Python text is made explicit:
  \<^item> the database is a record of its four tables, each the list of its rows in rowid
    order (the order of a table scan);
  \<^item> a connection holds the durable database and the connection's working copy;
    \<^verbatim>\<open>commit\<close> makes the working copy durable;
  \<^item> \<^verbatim>\<open>sha256(...).hexdigest()\<close> is a parameter \<open>H\<close>, \<^verbatim>\<open>CURRENT_TIMESTAMP\<close> a parameter
    \<open>now\<close>, \<^verbatim>\<open>date.today()\<close> a parameter \<open>today\<close>;
  \<^item> \<^verbatim>\<open>messaging.send\<close> is a parameter acting on a state of the push service, returning
    either the text of the exception it raised or the provider's response;
  \<^item> the integers of a request are Python's unbounded ones, the integers of a stored row
    are SQLite's signed 64-bit ones: binding a request's integer outside that range to a
    statement raises \<^verbatim>\<open>OverflowError\<close>, and an insert into a table whose largest rowid is
    the largest integer raises \<^verbatim>\<open>sqlite3.OperationalError\<close>. No endpoint catches either,
    so the request ends without a response body;
  \<^item> strings are the byte strings SQLite stores as text, compared byte by byte;
  \<^item> the database file is taken to be readable and writable, and requests are handled
    one after the other.
\<close>

subsection \<open>JSON values and the response envelope\<close>

datatype json =
    JNull
  | JInt int
  | JStr string
  | JList "json list"
  | JObj "(string \<times> json) list"

text \<open>\<^verbatim>\<open>unified_response(status, msg, data=None)\<close>, lines 101-103.\<close>

definition unified_response :: "int \<Rightarrow> string \<Rightarrow> json \<Rightarrow> json" where
  "unified_response status msg data =
     JObj [(''status'', JInt status), (''msg'', JStr msg), (''data'', data)]"


definition envelope_status :: "json \<Rightarrow> int option" where
  "envelope_status j =
     (case j of
        JObj ((k, JInt s) # rest) \<Rightarrow> if k = ''status'' then Some s else None
      | _ \<Rightarrow> None)"

definition envelope_data :: "json \<Rightarrow> json option" where
  "envelope_data j =
     (case j of
        JObj [s, m, (k, d)] \<Rightarrow> if k = ''data'' then Some d else None
      | _ \<Rightarrow> None)"

subsection \<open>Tables, database, connection\<close>

text \<open>
  An \<^verbatim>\<open>INTEGER\<close> column holds a signed 64-bit value, read with \<open>sint\<close>. \<open>sqlite_int\<close>
  is the range of the Python integers that can be bound to a statement.
\<close>

type_synonym int64 = "64 word"

definition sqlite_int :: "int \<Rightarrow> bool" where
  "sqlite_int i = (- (2 ^ 63) \<le> i \<and> i < 2 ^ 63)"

datatype exn = IntegrityError | OverflowError | OperationalError

text \<open>The four tables of \<^verbatim>\<open>create_db\<close>, lines 36-70, one record per row.\<close>

record chat_room =
  cr_id :: int64
  cr_name :: string

record user_row =
  u_id :: int64
  u_username :: string
  u_password :: string

record push_token_row =
  pt_id :: int64
  pt_user_id :: int64
  pt_token :: string

record message_row =
  m_id :: int64
  m_room_id :: int64
  m_sender_id :: int64
  m_sender_name :: string
  m_message :: string
  m_timestamp :: string

record db =
  chat_rooms :: "chat_room list"
  users :: "user_row list"
  push_tokens :: "push_token_row list"
  messages :: "message_row list"

definition room_ids :: "db \<Rightarrow> int list" where
  "room_ids d = map (\<lambda>r. sint (cr_id r)) (chat_rooms d)"

definition message_ids :: "db \<Rightarrow> int list" where
  "message_ids d = map (\<lambda>m. sint (m_id m)) (messages d)"

definition stored_tokens :: "db \<Rightarrow> string list" where
  "stored_tokens d = map pt_token (push_tokens d)"

definition empty_db :: db where
  "empty_db = \<lparr>chat_rooms = [], users = [], push_tokens = [], messages = []\<rparr>"

text \<open>
  \<^verbatim>\<open>sqlite3.connect(DB_NAME)\<close>, \<^verbatim>\<open>conn.commit()\<close> and \<^verbatim>\<open>conn.close()\<close>. A statement that
  writes changes the working copy only. Closing a connection, or returning without
  closing it (the early returns of the endpoints), leaves the durable database as the
  last commit made it.
\<close>

record conn =
  durable :: db
  working :: db

definition connect :: "db \<Rightarrow> conn" where
  "connect d = \<lparr>durable = d, working = d\<rparr>"

definition commit :: "conn \<Rightarrow> conn" where
  "commit c = c\<lparr>durable := working c\<rparr>"

definition close :: "conn \<Rightarrow> db" where
  "close c = durable c"

definition dropped :: "conn \<Rightarrow> db" where
  "dropped c = durable c"

text \<open>
  \<^verbatim>\<open>cursor.fetchone()\<close> after a \<^verbatim>\<open>SELECT\<close>: the first row of the result, or
  \<^verbatim>\<open>None\<close>.
\<close>

definition fetchone :: "'a list \<Rightarrow> 'a option" where
  "fetchone rows = (case rows of [] \<Rightarrow> None | r # _ \<Rightarrow> Some r)"

text \<open>
  \<^verbatim>\<open>INTEGER PRIMARY KEY AUTOINCREMENT\<close>: a row inserted without an id gets one more than
  the largest id the table has held. No statement of the program deletes a row, so that
  is the largest id in the table (0 for a table that never had a row). When that number
  is no 64-bit integer any more the insert fails (\<^verbatim>\<open>SQLITE_FULL\<close>).
\<close>

definition next_id :: "int64 list \<Rightarrow> int" where
  "next_id ids = fold max (map sint ids) 0 + 1"

subsection \<open>create\_db\<close>

text \<open>
  \<^verbatim>\<open>INSERT OR IGNORE INTO chat_rooms (id, name) VALUES (?, ?)\<close>: the row is skipped when
  its id (the primary key) or its name (\<^verbatim>\<open>UNIQUE\<close>) is taken, and stored at its rowid
  position otherwise. The ids bound are the constants 1, 2 and 3.
\<close>

definition room_conflict :: "int64 \<times> string \<Rightarrow> chat_room list \<Rightarrow> bool" where
  "room_conflict s rows = list_ex (\<lambda>r. cr_id r = fst s \<or> cr_name r = snd s) rows"

definition insert_or_ignore_room :: "int64 \<times> string \<Rightarrow> chat_room list \<Rightarrow> chat_room list" where
  "insert_or_ignore_room s rows =
     (if room_conflict s rows then rows
      else insort_key (\<lambda>r. sint (cr_id r)) \<lparr>cr_id = fst s, cr_name = snd s\<rparr> rows)"

definition seed_rooms :: "(int64 \<times> string) list" where
  "seed_rooms = [(1, ''General''), (2, ''Technology''), (3, ''Random'')]"

text \<open>
  \<^verbatim>\<open>create_db()\<close>, lines 33-72. \<^verbatim>\<open>CREATE TABLE IF NOT EXISTS\<close> leaves an existing table
  as it is and creates an empty one otherwise; a missing table is the empty list here.
  \<^verbatim>\<open>executemany\<close> runs the insert once per seed, in order.
\<close>

definition create_db :: "db \<Rightarrow> db" where
  "create_db d =
     (let c = connect d;
          c = c\<lparr>working := (working c)\<lparr>chat_rooms :=
                 fold insert_or_ignore_room seed_rooms (chat_rooms (working c))\<rparr>\<rparr>;
          c = commit c
      in close c)"

subsection \<open>Request models\<close>

record user_model =
  username :: string
  password :: string


record message_model =
  sender_id :: int
  sender_name :: string
  message :: string
  room_id :: int

subsection \<open>register and login\<close>

text \<open>
  \<^verbatim>\<open>INSERT INTO users (username, password)\<close>: the statement fails when the table has no
  rowid left, and \<^verbatim>\<open>username\<close> is \<^verbatim>\<open>UNIQUE\<close>, so it raises
  \<^verbatim>\<open>sqlite3.IntegrityError\<close> when the name is taken.
\<close>

definition insert_user :: "string \<Rightarrow> string \<Rightarrow> db \<Rightarrow> exn + db" where
  "insert_user name pw d =
     (if \<not> sqlite_int (next_id (map u_id (users d))) then Inl OperationalError
      else if list_ex (\<lambda>u. u_username u = name) (users d) then Inl IntegrityError
      else Inr (d\<lparr>users := users d @
             [\<lparr>u_id = word_of_int (next_id (map u_id (users d))), u_username = name,
               u_password = pw\<rparr>]\<rparr>))"

text \<open>\<^verbatim>\<open>register(user)\<close>, lines 107-123. An exception leaves the request without a body.\<close>

definition register :: "(string \<Rightarrow> string) \<Rightarrow> user_model \<Rightarrow> db \<Rightarrow> (exn + json) \<times> db" where
  "register H user d =
     (let c = connect d;
          existing_user = fetchone (filter (\<lambda>u. u_username u = username user) (users (working c)))
      in case existing_user of
           Some _ \<Rightarrow> (Inr (unified_response 1 ''Username already exists'' JNull), dropped c)
         | None \<Rightarrow>
             (let hashed_password = H (password user)
              in case insert_user (username user) hashed_password (working c) of
                   Inl e \<Rightarrow> (Inl e, dropped c)
                 | Inr w \<Rightarrow>
                     (let c = commit (c\<lparr>working := w\<rparr>)
                      in (Inr (unified_response 0 ''User registered successfully'' JNull),
                          close c))))"


subsection \<open>submit\_push\_token\<close>



subsection \<open>send\_message\_and\_notify\<close>

text \<open>
  \<^verbatim>\<open>messaging.Message(notification=messaging.Notification(title, body), token)\<close>.
\<close>

record notification =
  title :: string
  body :: string

record fcm_message =
  fcm_notification :: notification
  fcm_token :: string

text \<open>
  What a request does to the outside, in the order it does it: a commit, with the
  database it made durable, or one attempt to push a message.
\<close>

datatype effect = Committed db | Pushed fcm_message

text \<open>
  The push service: building and sending one message either raises (\<open>Inl\<close>, the text
  \<^verbatim>\<open>str(e)\<close> of the exception) or returns the provider's response (\<open>Inr\<close>), and moves the
  service to a new state.
\<close>

type_synonym 'w push_service = "fcm_message \<Rightarrow> 'w \<Rightarrow> (string + string) \<times> 'w"

text \<open>
  \<^verbatim>\<open>SELECT * FROM chat_rooms WHERE id = ?\<close> followed by \<^verbatim>\<open>fetchone()\<close>, lines 171-172
  and 229-230: binding the id raises \<^verbatim>\<open>OverflowError\<close> outside the 64-bit range.
\<close>

definition select_room :: "int \<Rightarrow> db \<Rightarrow> exn + chat_room option" where
  "select_room rid d =
     (if \<not> sqlite_int rid then Inl OverflowError
      else Inr (fetchone (filter (\<lambda>r. sint (cr_id r) = rid) (chat_rooms d))))"

text \<open>
  \<^verbatim>\<open>INSERT INTO messages (sender_id, sender_name, message, room_id)\<close>: binding either
  integer raises \<^verbatim>\<open>OverflowError\<close> outside the 64-bit range, and the statement fails when
  the table has no rowid left. The id is the next one, the timestamp defaults to
  \<^verbatim>\<open>CURRENT_TIMESTAMP\<close>. The table has no \<^verbatim>\<open>UNIQUE\<close> column and the foreign key is not
  enforced.
\<close>

definition new_message_row :: "string \<Rightarrow> message_model \<Rightarrow> db \<Rightarrow> message_row" where
  "new_message_row now msg d =
     \<lparr>m_id = word_of_int (next_id (map m_id (messages d))),
      m_room_id = word_of_int (room_id msg), m_sender_id = word_of_int (sender_id msg),
      m_sender_name = sender_name msg, m_message = message msg, m_timestamp = now\<rparr>"

definition insert_message :: "string \<Rightarrow> message_model \<Rightarrow> db \<Rightarrow> exn + db" where
  "insert_message now msg d =
     (if \<not> (sqlite_int (sender_id msg) \<and> sqlite_int (room_id msg)) then Inl OverflowError
      else if \<not> sqlite_int (next_id (map m_id (messages d))) then Inl OperationalError
      else Inr (d\<lparr>messages := messages d @ [new_message_row now msg d]\<rparr>))"

text \<open>
  The loop of lines 189-202 over the fetched tokens: \<open>ns\<close> is the list
  \<^verbatim>\<open>notifications\<close>, \<open>es\<close> the effects so far, \<open>w\<close> the state of the push service.
\<close>

fun notify_loop ::
  "'w push_service \<Rightarrow> string \<Rightarrow> string \<Rightarrow> string list \<Rightarrow> json list \<Rightarrow> effect list \<Rightarrow> 'w
     \<Rightarrow> json list \<times> effect list \<times> 'w" where
  "notify_loop send ttl bdy [] ns es w = (ns, es, w)"
| "notify_loop send ttl bdy (tok # toks) ns es w =
     (let message_notification =
            \<lparr>fcm_notification = \<lparr>title = ttl, body = bdy\<rparr>, fcm_token = tok\<rparr>
      in case send message_notification w of
           (Inr response, w') \<Rightarrow>
             notify_loop send ttl bdy toks
               (ns @ [JObj [(''token'', JStr tok), (''response'', JStr response)]])
               (es @ [Pushed message_notification]) w'
         | (Inl e, w') \<Rightarrow>
             notify_loop send ttl bdy toks
               (ns @ [JObj [(''token'', JStr tok), (''error'', JStr e)]])
               (es @ [Pushed message_notification]) w')"

text \<open>
  The Notification Dispatcher as section 4.4 of the specification words it: for each
  token, in order, one message is built and sent once; a failure becomes a
  \<open>Failure\<close> with the token and the description, a success a \<open>Success\<close> with the
  token and the receipt, and the next token is served by the service as the last call
  left it. \<open>outcome_json\<close> is the wire form of an outcome.
\<close>

datatype notification_outcome = Success string string | Failure string string

fun spec_dispatch ::
  "'w push_service \<Rightarrow> string \<Rightarrow> string \<Rightarrow> string list \<Rightarrow> 'w \<Rightarrow> notification_outcome list \<times> 'w"
  where
  "spec_dispatch send ttl bdy [] w = ([], w)"
| "spec_dispatch send ttl bdy (tok # toks) w =
     (case send \<lparr>fcm_notification = \<lparr>title = ttl, body = bdy\<rparr>, fcm_token = tok\<rparr> w of
        (res, w') \<Rightarrow>
          (case spec_dispatch send ttl bdy toks w' of
             (os, w'') \<Rightarrow>
               ((case res of Inr receipt \<Rightarrow> Success tok receipt | Inl e \<Rightarrow> Failure tok e) # os,
                w'')))"

fun outcome_json :: "notification_outcome \<Rightarrow> json" where
  "outcome_json (Success tok receipt) =
     JObj [(''token'', JStr tok), (''response'', JStr receipt)]"
| "outcome_json (Failure tok e) = JObj [(''token'', JStr tok), (''error'', JStr e)]"

fun outcome_of_token :: "notification_outcome \<Rightarrow> string" where
  "outcome_of_token (Success tok receipt) = tok"
| "outcome_of_token (Failure tok e) = tok"

record 'w outcome =
  response :: "exn + json"
  db_after :: db
  effects :: "effect list"
  service_after :: 'w

text \<open>
  \<^verbatim>\<open>send_message_and_notify(message)\<close>, lines 164-205. An exception of the \<^verbatim>\<open>SELECT\<close>
  or of the \<^verbatim>\<open>INSERT\<close> ends the request before the commit and the loop.
\<close>

definition send_message_and_notify ::
  "'w push_service \<Rightarrow> string \<Rightarrow> message_model \<Rightarrow> db \<Rightarrow> 'w \<Rightarrow> 'w outcome" where
  "send_message_and_notify send now msg d w =
     (let c = connect d
      in case select_room (room_id msg) (working c) of
           Inl e \<Rightarrow>
             \<lparr>response = Inl e, db_after = dropped c, effects = [], service_after = w\<rparr>
         | Inr None \<Rightarrow>
             \<lparr>response = Inr (unified_response 1 ''Invalid room ID'' JNull),
              db_after = dropped c, effects = [], service_after = w\<rparr>
         | Inr (Some r) \<Rightarrow>
             (case insert_message now msg (working c) of
                Inl e \<Rightarrow>
                  \<lparr>response = Inl e, db_after = dropped c, effects = [], service_after = w\<rparr>
              | Inr wk \<Rightarrow>
                  (let c = commit (c\<lparr>working := wk\<rparr>);
                       es = [Committed (durable c)];
                       tokens = stored_tokens (working c);
                       (notifications, es, w') =
                         notify_loop send (cr_name r @ '': '' @ sender_name msg) (message msg)
                           tokens [] es w
                   in \<lparr>response =
                         Inr (unified_response 0 ''Message sent and notifications processed''
                                (JObj [(''notifications'', JList notifications)])),
                       db_after = close c, effects = es, service_after = w'\<rparr>)))"

text \<open>
  A push service that also keeps the messages it is handed, in the order of the calls.
\<close>

definition logged :: "'w push_service \<Rightarrow> (fcm_message list \<times> 'w) push_service" where
  "logged send m lw =
     (case send m (snd lw) of (res, w') \<Rightarrow> (res, (fst lw @ [m], w')))"


definition succeeded :: "exn + json \<Rightarrow> bool" where
  "succeeded r = (case r of Inr j \<Rightarrow> envelope_status j = Some 0 | Inl e \<Rightarrow> False)"

subsection \<open>get\_chat\_rooms, get\_messages, get\_demo\<close>


text \<open>
  \<^verbatim>\<open>SELECT sender_id, sender_name, message, timestamp FROM messages WHERE room_id = ?
  ORDER BY timestamp ASC\<close>: the table has no index on \<^verbatim>\<open>timestamp\<close>, so SQLite scans it in
  rowid order, keeps the rows of the room and sorts them on the timestamp text with its
  merge sorter, which leaves rows with equal keys in scan order. \<open>sort_key\<close> is such a
  sort.
\<close>

definition select_room_messages :: "int \<Rightarrow> db \<Rightarrow> message_row list" where
  "select_room_messages rid d =
     sort_key m_timestamp (filter (\<lambda>m. sint (m_room_id m) = rid) (messages d))"

definition format_message :: "message_row \<Rightarrow> json" where
  "format_message m =
     JObj [(''sender_id'', JInt (sint (m_sender_id m))),
           (''sender_name'', JStr (m_sender_name m)),
           (''message'', JStr (m_message m)), (''timestamp'', JStr (m_timestamp m))]"

text \<open>
  \<^verbatim>\<open>get_messages(room_id)\<close>, lines 222-248; the \<^verbatim>\<open>print\<close> of the response is left out.
\<close>

definition get_messages :: "int \<Rightarrow> db \<Rightarrow> exn + json" where
  "get_messages rid d =
     (let c = connect d
      in case select_room rid (working c) of
           Inl e \<Rightarrow> Inl e
         | Inr None \<Rightarrow> Inr (unified_response 1 ''Invalid room ID'' JNull)
         | Inr (Some r) \<Rightarrow>
             (let formatted_messages = map format_message (select_room_messages rid (working c))
              in Inr (unified_response 0 (''Messages retrieved successfully from '' @ cr_name r)
                        (JList formatted_messages))))"


subsection \<open>Concrete states\<close>

text \<open>
  The scenario of the specification: one room \<^verbatim>\<open>General\<close>, a user \<^verbatim>\<open>alice\<close>, the tokens
  \<^verbatim>\<open>t1\<close> (of the sender) and \<^verbatim>\<open>t2\<close>, a push service that always answers and one that
  always raises; a database with a foreign room in the place of a seed; a room with two
  messages of the same second; requests with an integer one past the largest 64-bit one.
\<close>

definition lobby_db :: db where
  "lobby_db = empty_db\<lparr>chat_rooms := [\<lparr>cr_id = 1, cr_name = ''Lobby''\<rparr>]\<rparr>"

definition general_db :: db where
  "general_db =
     \<lparr>chat_rooms = [\<lparr>cr_id = 1, cr_name = ''General''\<rparr>],
      users = [\<lparr>u_id = 1, u_username = ''alice'', u_password = ''secret''\<rparr>],
      push_tokens = [\<lparr>pt_id = 1, pt_user_id = 1, pt_token = ''t1''\<rparr>,
                     \<lparr>pt_id = 2, pt_user_id = 2, pt_token = ''t2''\<rparr>],
      messages = []\<rparr>"

definition hi_msg :: message_model where
  "hi_msg = \<lparr>sender_id = 1, sender_name = ''alice'', message = ''hi'', room_id = 1\<rparr>"

definition stray_msg :: message_model where
  "stray_msg = \<lparr>sender_id = 1, sender_name = ''alice'', message = ''hi'', room_id = 99\<rparr>"

definition huge_room_msg :: message_model where
  "huge_room_msg =
     \<lparr>sender_id = 1, sender_name = ''alice'', message = ''hi'', room_id = 2 ^ 63\<rparr>"



definition provider_ok :: "unit push_service" where
  "provider_ok m w = (Inr ''ok'', w)"

definition provider_down :: "unit push_service" where
  "provider_down m w = (Inl ''unavailable'', w)"

definition tie_db :: db where
  "tie_db =
     general_db\<lparr>messages :=
       [\<lparr>m_id = 1, m_room_id = 1, m_sender_id = 1, m_sender_name = ''alice'',
         m_message = ''late'', m_timestamp = ''2024-11-19 10:00:01''\<rparr>,
        \<lparr>m_id = 2, m_room_id = 1, m_sender_id = 1, m_sender_name = ''alice'',
         m_message = ''first'', m_timestamp = ''2024-11-19 10:00:00''\<rparr>,
        \<lparr>m_id = 3, m_room_id = 1, m_sender_id = 2, m_sender_name = ''bob'',
         m_message = ''second'', m_timestamp = ''2024-11-19 10:00:00''\<rparr>]\<rparr>"

section \<open>Auxiliary lemmas\<close>

lemma fetchone_filter_None:
  "(fetchone (filter P xs) = None) = (\<forall>x\<in>set xs. \<not> P x)"
  by (induction xs) (auto simp: fetchone_def)

lemma fetchone_filter_Some:
  "fetchone (filter P xs) = Some x \<Longrightarrow> x \<in> set xs \<and> P x"
  by (induction xs) (auto simp: fetchone_def split: if_splits)

lemma fetchone_filter_key:
  "distinct (map f xs) \<Longrightarrow> x \<in> set xs \<Longrightarrow> fetchone (filter (\<lambda>y. f y = f x) xs) = Some x"
  by (induction xs) (auto simp: fetchone_def)

lemma sqlite_int_sint: "sqlite_int (sint (x :: int64))"
  using sint_ge [of x] sint_lt [of x] by (simp add: sqlite_int_def)

lemma sint_word_of_int: "sqlite_int i \<Longrightarrow> sint (word_of_int i :: int64) = i"
  unfolding sqlite_int_def by (simp add: int_word_sint)

lemma sint_eq_iff: "(sint (x :: int64) = sint y) = (x = y)"
  by (auto intro: signed_word_eqI)

lemma select_room_absent:
  assumes "rid \<notin> set (room_ids d)"
  shows "select_room rid d = (if sqlite_int rid then Inr None else Inl OverflowError)"
proof -
  have "fetchone (filter (\<lambda>r. sint (cr_id r) = rid) (chat_rooms d)) = None"
    using assms by (force simp: fetchone_filter_None room_ids_def)
  then show ?thesis by (simp add: select_room_def)
qed

lemma select_room_present:
  assumes "rid \<in> set (room_ids d)"
  shows "\<exists>r\<in>set (chat_rooms d). sint (cr_id r) = rid \<and> select_room rid d = Inr (Some r)"
proof -
  have "sqlite_int rid" using assms by (auto simp: room_ids_def sqlite_int_sint)
  moreover have "fetchone (filter (\<lambda>r. sint (cr_id r) = rid) (chat_rooms d)) \<noteq> None"
    using assms by (auto simp: fetchone_filter_None room_ids_def)
  then obtain r where "fetchone (filter (\<lambda>r. sint (cr_id r) = rid) (chat_rooms d)) = Some r"
    by blast
  ultimately show ?thesis
    using fetchone_filter_Some [of "\<lambda>r. sint (cr_id r) = rid" "chat_rooms d" r]
    by (auto simp: select_room_def)
qed

lemma select_room_key:
  assumes "distinct (map cr_id (chat_rooms d))" and "r \<in> set (chat_rooms d)"
  shows "select_room (sint (cr_id r)) d = Inr (Some r)"
proof -
  have "fetchone (filter (\<lambda>y. cr_id y = cr_id r) (chat_rooms d)) = Some r"
    using assms by (rule fetchone_filter_key)
  then show ?thesis by (simp add: select_room_def sqlite_int_sint sint_eq_iff)
qed

lemma select_room_Some:
  "select_room rid d = Inr (Some r) \<Longrightarrow> sqlite_int rid \<and> r \<in> set (chat_rooms d) \<and> sint (cr_id r) = rid"
  using fetchone_filter_Some [of "\<lambda>r. sint (cr_id r) = rid" "chat_rooms d" r]
  by (auto simp: select_room_def split: if_splits)

lemma notify_loop_spec:
  "notify_loop send t b toks ns es w =
     (ns @ map outcome_json (fst (spec_dispatch send t b toks w)),
      es @ map (\<lambda>tok. Pushed \<lparr>fcm_notification = \<lparr>title = t, body = b\<rparr>, fcm_token = tok\<rparr>) toks,
      snd (spec_dispatch send t b toks w))"
proof (induction toks arbitrary: ns es w)
  case Nil
  then show ?case by simp
next
  case (Cons tok toks)
  obtain res w' where s: "send \<lparr>fcm_notification = \<lparr>title = t, body = b\<rparr>, fcm_token = tok\<rparr> w = (res, w')"
    by (cases "send \<lparr>fcm_notification = \<lparr>title = t, body = b\<rparr>, fcm_token = tok\<rparr> w")
  show ?case
    by (cases res) (simp_all add: s Cons Let_def split: prod.splits)
qed

lemma spec_dispatch_Cons:
  assumes "send \<lparr>fcm_notification = \<lparr>title = t, body = b\<rparr>, fcm_token = tok\<rparr> w = (res, w')"
  shows "spec_dispatch send t b (tok # toks) w =
           ((case res of Inr receipt \<Rightarrow> Success tok receipt | Inl e \<Rightarrow> Failure tok e) #
              fst (spec_dispatch send t b toks w'),
            snd (spec_dispatch send t b toks w'))"
  using assms by (simp split: prod.splits)

lemma spec_dispatch_tokens:
  "map outcome_of_token (fst (spec_dispatch send t b toks w)) = toks"
proof (induction toks arbitrary: w)
  case Nil
  then show ?case by simp
next
  case (Cons tok toks)
  obtain res w' where s: "send \<lparr>fcm_notification = \<lparr>title = t, body = b\<rparr>, fcm_token = tok\<rparr> w = (res, w')"
    by (cases "send \<lparr>fcm_notification = \<lparr>title = t, body = b\<rparr>, fcm_token = tok\<rparr> w")
  have "map outcome_of_token (fst (spec_dispatch send t b toks w')) = toks" by (rule Cons)
  then show ?case
    unfolding spec_dispatch_Cons [where send = send, OF s] by (cases res) simp_all
qed

lemma spec_dispatch_length: "length (fst (spec_dispatch send t b toks w)) = length toks"
  using spec_dispatch_tokens [of send t b toks w] by (metis length_map)

lemma spec_dispatch_logged:
  "fst (snd (spec_dispatch (logged send) t b toks (log, w))) =
     log @ map (\<lambda>tok. \<lparr>fcm_notification = \<lparr>title = t, body = b\<rparr>, fcm_token = tok\<rparr>) toks"
proof (induction toks arbitrary: log w)
  case Nil
  then show ?case by simp
next
  case (Cons tok toks)
  let ?m = "\<lparr>fcm_notification = \<lparr>title = t, body = b\<rparr>, fcm_token = tok\<rparr>"
  obtain res w' where s: "send ?m w = (res, w')"
    by (cases "send ?m w")
  have l: "logged send ?m (log, w) = (res, (log @ [?m], w'))"
    by (simp add: logged_def s)
  show ?case
    unfolding spec_dispatch_Cons [where send = "logged send", OF l] using Cons [of "log @ [?m]" w'] by simp
qed

lemma insert_message_ok:
  assumes "sqlite_int (sender_id msg)" and "sqlite_int (room_id msg)"
    and "sqlite_int (next_id (map m_id (messages d)))"
  shows "insert_message now msg d = Inr (d\<lparr>messages := messages d @ [new_message_row now msg d]\<rparr>)"
  using assms by (simp add: insert_message_def)

lemma send_message_and_notify_valid:
  assumes "select_room (room_id msg) d = Inr (Some r)" and "sqlite_int (sender_id msg)"
    and "sqlite_int (next_id (map m_id (messages d)))"
  shows "send_message_and_notify send now msg d w =
     \<lparr>response = Inr (unified_response 0 ''Message sent and notifications processed''
          (JObj [(''notifications'', JList (map outcome_json (fst (spec_dispatch send
             (cr_name r @ '': '' @ sender_name msg) (message msg) (stored_tokens d) w))))])),
      db_after = d\<lparr>messages := messages d @ [new_message_row now msg d]\<rparr>,
      effects = Committed (d\<lparr>messages := messages d @ [new_message_row now msg d]\<rparr>) #
        map (\<lambda>tok. Pushed \<lparr>fcm_notification = \<lparr>title = cr_name r @ '': '' @ sender_name msg,
               body = message msg\<rparr>, fcm_token = tok\<rparr>) (stored_tokens d),
      service_after = snd (spec_dispatch send (cr_name r @ '': '' @ sender_name msg)
             (message msg) (stored_tokens d) w)\<rparr>"
proof -
  have rng: "sqlite_int (room_id msg)" using select_room_Some [OF assms(1)] by simp
  show ?thesis
    using assms(1)
    by (simp add: send_message_and_notify_def connect_def commit_def close_def Let_def
          insert_message_ok [OF assms(2) rng assms(3)] notify_loop_spec stored_tokens_def)
qed

lemma send_message_and_notify_raises:
  assumes "select_room (room_id msg) d = Inr (Some r)"
    and "\<not> (sqlite_int (sender_id msg) \<and> sqlite_int (next_id (map m_id (messages d))))"
  shows "\<exists>e. send_message_and_notify send now msg d w =
     \<lparr>response = Inl e, db_after = d, effects = [], service_after = w\<rparr>"
  using assms
  by (auto simp: send_message_and_notify_def connect_def dropped_def insert_message_def)

lemma send_message_and_notify_absent:
  assumes "room_id msg \<notin> set (room_ids d)"
  shows "send_message_and_notify send now msg d w =
           \<lparr>response = (if sqlite_int (room_id msg)
                         then Inr (unified_response 1 ''Invalid room ID'' JNull)
                         else Inl OverflowError),
            db_after = d, effects = [], service_after = w\<rparr>"
  by (simp add: send_message_and_notify_def connect_def dropped_def select_room_absent [OF assms])

lemma succeeded_send_message:
  "succeeded (response (send_message_and_notify send now msg d w)) =
     (room_id msg \<in> set (room_ids d) \<and> sqlite_int (sender_id msg) \<and>
      sqlite_int (next_id (map m_id (messages d))))"
proof (cases "room_id msg \<in> set (room_ids d)")
  case False
  then show ?thesis
    by (simp add: send_message_and_notify_absent succeeded_def envelope_status_def
          unified_response_def)
next
  case True
  then obtain r where r: "select_room (room_id msg) d = Inr (Some r)"
    using select_room_present by blast
  show ?thesis
  proof (cases "sqlite_int (sender_id msg) \<and> sqlite_int (next_id (map m_id (messages d)))")
    case True
    then show ?thesis
      using \<open>room_id msg \<in> set (room_ids d)\<close>
      by (simp add: send_message_and_notify_valid [OF r] succeeded_def envelope_status_def
            unified_response_def)
  next
    case False
    obtain e where "send_message_and_notify send now msg d w =
        \<lparr>response = Inl e, db_after = d, effects = [], service_after = w\<rparr>"
      using send_message_and_notify_raises [OF r False, of send now w] by blast
    then show ?thesis using False by (auto simp: succeeded_def)
  qed
qed






lemma insort_key_tie_order:
  assumes "sorted_wrt (\<lambda>a b. f a < f b \<or> (f a = f b \<and> g a < g b)) ys"
    and "\<forall>y\<in>set ys. g x < g y"
  shows "sorted_wrt (\<lambda>a b. f a < f b \<or> (f a = f b \<and> g a < g b)) (insort_key f x ys)"
  using assms
proof (induction ys)
  case Nil
  then show ?case by simp
next
  case (Cons y ys)
  show ?case
  proof (cases "f x \<le> f y")
    case True
    have "\<forall>z\<in>set (y # ys). f x < f z \<or> (f x = f z \<and> g x < g z)"
    proof
      fix z assume z: "z \<in> set (y # ys)"
      have "f y \<le> f z" using Cons.prems(1) z by auto
      then have "f x \<le> f z" using True by simp
      moreover have "g x < g z" using Cons.prems(2) z by auto
      ultimately show "f x < f z \<or> (f x = f z \<and> g x < g z)" by auto
    qed
    then show ?thesis using True Cons.prems(1) by simp
  next
    case False
    have ih: "sorted_wrt (\<lambda>a b. f a < f b \<or> (f a = f b \<and> g a < g b)) (insort_key f x ys)"
      using Cons by simp
    have "\<forall>z\<in>set (insort_key f x ys). f y < f z \<or> (f y = f z \<and> g y < g z)"
      using False Cons.prems(1) by (auto simp: set_insort_key)
    then show ?thesis using False ih by simp
  qed
qed

lemma sort_key_tie_order:
  fixes g :: "'a \<Rightarrow> int"
  assumes "sorted_wrt (<) (map g xs)"
  shows "sorted_wrt (\<lambda>a b. f a < f b \<or> (f a = f b \<and> g a < g b)) (sort_key f xs)"
  using assms
proof (induction xs)
  case Nil
  then show ?case by simp
next
  case (Cons x xs)
  have "\<forall>y\<in>set (sort_key f xs). g x < g y" using Cons.prems by auto
  moreover have "sorted_wrt (\<lambda>a b. f a < f b \<or> (f a = f b \<and> g a < g b)) (sort_key f xs)"
    using Cons by simp
  ultimately show ?case by (simp add: insort_key_tie_order)
qed

lemma sorted_wrt_ids_filter:
  "sorted_wrt (<) (map g xs) \<Longrightarrow> sorted_wrt (<) (map g (filter P xs))"
  by (induction xs) auto

lemma fold_max_ge: "(b :: int) \<le> fold max zs b"
proof (induction zs arbitrary: b)
  case Nil
  then show ?case by simp
next
  case (Cons z zs)
  have "max z b \<le> fold max zs (max z b)" by (rule Cons)
  then show ?case by simp
qed

lemma fold_max_member: "(x :: int) \<in> set zs \<Longrightarrow> x \<le> fold max zs b"
proof (induction zs arbitrary: b)
  case Nil
  then show ?case by simp
next
  case (Cons z zs)
  show ?case
  proof (cases "x = z")
    case True
    have "max z b \<le> fold max zs (max z b)" by (rule fold_max_ge)
    then show ?thesis using True by simp
  next
    case False
    then show ?thesis using Cons by simp
  qed
qed

lemma next_id_greater: "x \<in> set ids \<Longrightarrow> sint x < next_id ids"
proof -
  assume "x \<in> set ids"
  then have "sint x \<in> set (map sint ids)" by simp
  then have "sint x \<le> fold max (map sint ids) 0" by (rule fold_max_member)
  then show ?thesis by (simp add: next_id_def)
qed

lemma send_message_ids_increasing:
  assumes "sorted_wrt (<) (message_ids d)"
  shows "sorted_wrt (<) (message_ids (db_after (send_message_and_notify send now msg d w)))"
proof (cases "succeeded (response (send_message_and_notify send now msg d w))")
  case True
  then have c: "room_id msg \<in> set (room_ids d)" "sqlite_int (sender_id msg)"
      "sqlite_int (next_id (map m_id (messages d)))"
    by (simp_all add: succeeded_send_message)
  obtain r where r: "select_room (room_id msg) d = Inr (Some r)"
    using select_room_present [OF c(1)] by blast
  have "\<forall>x\<in>set (messages d). sint (m_id x) < next_id (map m_id (messages d))"
    by (simp add: next_id_greater)
  then show ?thesis
    using assms
    by (simp add: send_message_and_notify_valid [OF r c(2) c(3)] message_ids_def
          sorted_wrt_append new_message_row_def sint_word_of_int [OF c(3)])
next
  case False
  have "db_after (send_message_and_notify send now msg d w) = d"
  proof (cases "room_id msg \<in> set (room_ids d)")
    case True
    then obtain r where r: "select_room (room_id msg) d = Inr (Some r)"
      using select_room_present by blast
    have "\<not> (sqlite_int (sender_id msg) \<and> sqlite_int (next_id (map m_id (messages d))))"
      using False True by (simp add: succeeded_send_message)
    then obtain e where "send_message_and_notify send now msg d w =
        \<lparr>response = Inl e, db_after = d, effects = [], service_after = w\<rparr>"
      using send_message_and_notify_raises [OF r, of send now w] by blast
    then show ?thesis by simp
  next
    case False
    then show ?thesis by (simp add: send_message_and_notify_absent)
  qed
  then show ?thesis using assms by simp
qed

lemma room_conflict_after_insert: "room_conflict s (insert_or_ignore_room s rows)"
  by (auto simp: insert_or_ignore_room_def room_conflict_def list_ex_iff set_insort_key)

lemma room_conflict_mono:
  "room_conflict s rows \<Longrightarrow> room_conflict s (insert_or_ignore_room t rows)"
  by (auto simp: insert_or_ignore_room_def room_conflict_def list_ex_iff set_insort_key)

lemma room_conflict_fold:
  "room_conflict s rows \<Longrightarrow> room_conflict s (fold insert_or_ignore_room seeds rows)"
  by (induction seeds arbitrary: rows) (auto simp: room_conflict_mono)

lemma fold_insert_conflicts:
  "\<forall>s\<in>set seeds. room_conflict s (fold insert_or_ignore_room seeds rows)"
proof (induction seeds arbitrary: rows)
  case Nil
  then show ?case by simp
next
  case (Cons s seeds)
  have "room_conflict s (fold insert_or_ignore_room seeds (insert_or_ignore_room s rows))"
    by (rule room_conflict_fold) (rule room_conflict_after_insert)
  then show ?case using Cons by simp
qed

lemma fold_insert_ignored:
  "\<forall>s\<in>set seeds. room_conflict s rows \<Longrightarrow> fold insert_or_ignore_room seeds rows = rows"
  by (induction seeds) (auto simp: insert_or_ignore_room_def)

lemma create_db_chat_rooms:
  "create_db d = d\<lparr>chat_rooms := fold insert_or_ignore_room seed_rooms (chat_rooms d)\<rparr>"
  by (simp add: create_db_def connect_def commit_def close_def)

lemma create_db_twice: "create_db (create_db d) = create_db d"
  by (simp add: create_db_chat_rooms fold_insert_ignored fold_insert_conflicts)

lemma create_db_funpow: "(create_db ^^ n) (create_db d) = create_db d"
  by (induction n) (simp_all add: create_db_twice)

lemma set_insert_or_ignore_room:
  "set (insert_or_ignore_room s rows) =
     (if room_conflict s rows then set rows
      else insert \<lparr>cr_id = fst s, cr_name = snd s\<rparr> (set rows))"
  by (simp add: insert_or_ignore_room_def set_insort_key)

lemma room_conflict_insert:
  "room_conflict s (insert_or_ignore_room t rows) =
     (room_conflict s rows \<or> (\<not> room_conflict t rows \<and> (fst t = fst s \<or> snd t = snd s)))"
  by (auto simp: room_conflict_def list_ex_iff
        set_insert_or_ignore_room [unfolded room_conflict_def list_ex_iff])

lemma register_usernames_distinct:
  assumes "distinct (map u_username (users d))"
  shows "distinct (map u_username (users (snd (register H u d))))"
proof (cases "fetchone (filter (\<lambda>x. u_username x = username u) (users d))")
  case None
  then have "\<forall>x\<in>set (users d). u_username x \<noteq> username u"
    by (simp add: fetchone_filter_None)
  then have "username u \<notin> u_username ` set (users d)" by auto
  then show ?thesis using None assms
    by (auto simp: register_def connect_def commit_def close_def dropped_def insert_user_def
          Let_def split: if_splits)
next
  case (Some a)
  then show ?thesis using assms by (simp add: register_def connect_def dropped_def)
qed

lemma create_db_room_ids_distinct:
  assumes "distinct (map cr_id (chat_rooms d))"
  shows "distinct (map cr_id (chat_rooms (create_db d)))"
proof -
  have step: "\<And>s rows. distinct (map cr_id rows) \<Longrightarrow>
      distinct (map cr_id (insert_or_ignore_room s rows))"
    by (auto simp: insert_or_ignore_room_def room_conflict_def list_ex_iff distinct_map
          distinct_insort set_insort_key inj_on_def)
  have "\<And>rows. distinct (map cr_id rows) \<Longrightarrow>
      distinct (map cr_id (fold insert_or_ignore_room seeds rows))" for seeds
    by (induction seeds) (auto simp: step)
  then show ?thesis using assms by (simp add: create_db_chat_rooms)
qed

section \<open>The claims\<close>

text \<open>
  Claim C1, as the code has it. A submit request whose \<^verbatim>\<open>room_id\<close> is the id of no row
  of \<^verbatim>\<open>chat_rooms\<close> leaves the durable database as it was, so no row entered
  \<^verbatim>\<open>messages\<close>; nothing is committed, no push is attempted and the push service stays in
  its state. When the \<^verbatim>\<open>room_id\<close> is a 64-bit integer the request is answered with the
  envelope of status 1 and the message \<^verbatim>\<open>Invalid room ID\<close>; otherwise binding it raises
  \<^verbatim>\<open>OverflowError\<close> and the request has no envelope, as the theorem after this one shows
  for the room id \<open>2 ^ 63\<close>.
\<close>

theorem invalid_room_rejected:
  assumes "room_id msg \<notin> set (room_ids d)"
  shows "send_message_and_notify send now msg d w =
           \<lparr>response = (if sqlite_int (room_id msg)
                         then Inr (unified_response 1 ''Invalid room ID'' JNull)
                         else Inl OverflowError),
            db_after = d, effects = [], service_after = w\<rparr>"
  using assms by (rule send_message_and_notify_absent)

theorem huge_room_id_raises:
  "room_id huge_room_msg \<notin> set (room_ids general_db) \<and>
   response (send_message_and_notify provider_ok ''2024-11-19 10:00:00'' huge_room_msg
               general_db ()) = Inl OverflowError"
  by (simp add: send_message_and_notify_def connect_def dropped_def select_room_def
        sqlite_int_def huge_room_msg_def general_db_def room_ids_def)

theorem invalid_room_rejected_witness:
  "room_id stray_msg \<notin> set (room_ids general_db) \<and>
   send_message_and_notify provider_ok ''2024-11-19 10:00:00'' stray_msg general_db () =
     \<lparr>response = Inr (unified_response 1 ''Invalid room ID'' JNull), db_after = general_db,
      effects = [], service_after = ()\<rparr>"
proof -
  have h: "room_id stray_msg \<notin> set (room_ids general_db)"
    by (simp add: stray_msg_def general_db_def room_ids_def)
  have r: "sqlite_int (room_id stray_msg)"
    by (simp add: stray_msg_def sqlite_int_def)
  show ?thesis
    using h r invalid_room_rejected [OF h, where send = provider_ok] by simp
qed

text \<open>
  Claim C2. The fan-out loop, for every push service, title, body and list of tokens,
  produces the wire form of the outcomes of the specification's dispatcher: one entry per
  token, in the order of the tokens, \<^verbatim>\<open>{token, response}\<close> with the provider's response
  where the send returned and \<^verbatim>\<open>{token, error}\<close> with the text of the exception where it
  raised, each token being served by the service as the call before left it, whatever
  failed before. The loop runs in exactly the requests that succeed, and the
  \<^verbatim>\<open>notifications\<close> of such a response are these entries for the stored tokens in table
  order.
\<close>

theorem fan_out_one_entry_per_token:
  "fst (notify_loop send ttl bdy toks [] [] w) =
     map outcome_json (fst (spec_dispatch send ttl bdy toks w)) \<and>
   snd (snd (notify_loop send ttl bdy toks [] [] w)) = snd (spec_dispatch send ttl bdy toks w) \<and>
   length (fst (notify_loop send ttl bdy toks [] [] w)) = length toks \<and>
   map outcome_of_token (fst (spec_dispatch send ttl bdy toks w)) = toks \<and>
   (succeeded (response (send_message_and_notify send now msg d w)) \<longrightarrow>
      (\<exists>r\<in>set (chat_rooms d). sint (cr_id r) = room_id msg \<and>
         response (send_message_and_notify send now msg d w) =
           Inr (unified_response 0 ''Message sent and notifications processed''
                  (JObj [(''notifications'',
                          JList (map outcome_json (fst (spec_dispatch send
                                   (cr_name r @ '': '' @ sender_name msg) (message msg)
                                   (stored_tokens d) w))))])) \<and>
         service_after (send_message_and_notify send now msg d w) =
           snd (spec_dispatch send (cr_name r @ '': '' @ sender_name msg) (message msg)
                  (stored_tokens d) w)))"
proof -
  have 1: "fst (notify_loop send ttl bdy toks [] [] w) =
      map outcome_json (fst (spec_dispatch send ttl bdy toks w))"
    by (simp add: notify_loop_spec)
  have 2: "snd (snd (notify_loop send ttl bdy toks [] [] w)) =
      snd (spec_dispatch send ttl bdy toks w)"
    by (simp add: notify_loop_spec)
  have 3: "length (fst (notify_loop send ttl bdy toks [] [] w)) = length toks"
    by (simp add: notify_loop_spec spec_dispatch_length)
  have 4: "map outcome_of_token (fst (spec_dispatch send ttl bdy toks w)) = toks"
    by (rule spec_dispatch_tokens)
  have 5: "succeeded (response (send_message_and_notify send now msg d w)) \<longrightarrow>
      (\<exists>r\<in>set (chat_rooms d). sint (cr_id r) = room_id msg \<and>
         response (send_message_and_notify send now msg d w) =
           Inr (unified_response 0 ''Message sent and notifications processed''
                  (JObj [(''notifications'',
                          JList (map outcome_json (fst (spec_dispatch send
                                   (cr_name r @ '': '' @ sender_name msg) (message msg)
                                   (stored_tokens d) w))))])) \<and>
         service_after (send_message_and_notify send now msg d w) =
           snd (spec_dispatch send (cr_name r @ '': '' @ sender_name msg) (message msg)
                  (stored_tokens d) w))"
  proof
    assume "succeeded (response (send_message_and_notify send now msg d w))"
    then have c: "room_id msg \<in> set (room_ids d)" "sqlite_int (sender_id msg)"
        "sqlite_int (next_id (map m_id (messages d)))"
      by (simp_all add: succeeded_send_message)
    obtain r where r: "r \<in> set (chat_rooms d)" "sint (cr_id r) = room_id msg"
        "select_room (room_id msg) d = Inr (Some r)"
      using select_room_present [OF c(1)] by blast
    show "\<exists>r\<in>set (chat_rooms d). sint (cr_id r) = room_id msg \<and>
         response (send_message_and_notify send now msg d w) =
           Inr (unified_response 0 ''Message sent and notifications processed''
                  (JObj [(''notifications'',
                          JList (map outcome_json (fst (spec_dispatch send
                                   (cr_name r @ '': '' @ sender_name msg) (message msg)
                                   (stored_tokens d) w))))])) \<and>
         service_after (send_message_and_notify send now msg d w) =
           snd (spec_dispatch send (cr_name r @ '': '' @ sender_name msg) (message msg)
                  (stored_tokens d) w)"
      using r(1,2) by (auto simp: send_message_and_notify_valid [OF r(3) c(2) c(3)])
  qed
  from 1 2 3 4 5 show ?thesis by blast
qed

theorem fan_out_one_entry_per_token_witness:
  "succeeded (response (send_message_and_notify (logged provider_down) ''2024-11-19 10:00:00''
                          hi_msg general_db ([], ()))) \<and>
   response (send_message_and_notify (logged provider_down) ''2024-11-19 10:00:00''
               hi_msg general_db ([], ())) =
     Inr (unified_response 0 ''Message sent and notifications processed''
            (JObj [(''notifications'',
                    JList [JObj [(''token'', JStr ''t1''), (''error'', JStr ''unavailable'')],
                           JObj [(''token'', JStr ''t2''), (''error'', JStr ''unavailable'')]])]))"
proof -
  have h: "succeeded (response (send_message_and_notify (logged provider_down)
      ''2024-11-19 10:00:00'' hi_msg general_db ([], ())))"
    by (simp add: succeeded_send_message hi_msg_def general_db_def room_ids_def sqlite_int_def
          next_id_def)
  have t: "stored_tokens general_db = [''t1'', ''t2'']"
    by (simp add: stored_tokens_def general_db_def)
  have c: "chat_rooms general_db = [\<lparr>cr_id = 1, cr_name = ''General''\<rparr>]"
    by (simp add: general_db_def)
  show ?thesis
    using h fan_out_one_entry_per_token [where send = "logged provider_down"
        and now = "''2024-11-19 10:00:00''" and msg = hi_msg and d = general_db
        and w = "([], ())" and toks = "[]" and ttl = "[]" and bdy = "[]"]
    by (simp add: t c logged_def provider_down_def)
qed













text \<open>
  Claim C7. For an existing room, on a \<^verbatim>\<open>messages\<close> table whose ids increase along the
  table (which \<open>send_message_ids_increasing\<close> shows every submit to preserve),
  \<^verbatim>\<open>get_messages\<close> answers with status 0 and the formatted rows of the query, and these
  rows are exactly the rows of the room, each as often as the table has it; their timestamps
  never decrease along the list; of two rows with the same timestamp the one with the
  smaller id comes first, and rows of one timestamp keep the order in which they were
  inserted; a room without messages gets status 0 and the empty list.
\<close>

theorem get_messages_ordered:
  assumes "rid \<in> set (room_ids d)" and "sorted_wrt (<) (message_ids d)"
  shows "(\<exists>r\<in>set (chat_rooms d). sint (cr_id r) = rid \<and>
            get_messages rid d =
              Inr (unified_response 0 (''Messages retrieved successfully from '' @ cr_name r)
                     (JList (map format_message (select_room_messages rid d))))) \<and>
         mset (select_room_messages rid d) =
           mset (filter (\<lambda>m. sint (m_room_id m) = rid) (messages d)) \<and>
         sorted (map m_timestamp (select_room_messages rid d)) \<and>
         sorted_wrt (\<lambda>a b. m_timestamp a < m_timestamp b \<or>
                            (m_timestamp a = m_timestamp b \<and> sint (m_id a) < sint (m_id b)))
           (select_room_messages rid d) \<and>
         (\<forall>t. filter (\<lambda>m. m_timestamp m = t) (select_room_messages rid d) =
              filter (\<lambda>m. m_timestamp m = t)
                (filter (\<lambda>m. sint (m_room_id m) = rid) (messages d))) \<and>
         (filter (\<lambda>m. sint (m_room_id m) = rid) (messages d) = [] \<longrightarrow>
            (\<exists>j. get_messages rid d = Inr j \<and> envelope_status j = Some 0 \<and>
                 envelope_data j = Some (JList [])))"
proof -
  obtain r where r: "r \<in> set (chat_rooms d)" "sint (cr_id r) = rid"
      "select_room rid d = Inr (Some r)"
    using select_room_present [OF assms(1)] by blast
  have get: "get_messages rid d =
      Inr (unified_response 0 (''Messages retrieved successfully from '' @ cr_name r)
        (JList (map format_message (select_room_messages rid d))))"
    by (simp add: get_messages_def connect_def r(3) Let_def)
  have 1: "\<exists>r\<in>set (chat_rooms d). sint (cr_id r) = rid \<and>
            get_messages rid d =
              Inr (unified_response 0 (''Messages retrieved successfully from '' @ cr_name r)
                     (JList (map format_message (select_room_messages rid d))))"
    using r(1,2) get by blast
  have 2: "mset (select_room_messages rid d) =
      mset (filter (\<lambda>m. sint (m_room_id m) = rid) (messages d))"
    by (simp add: select_room_messages_def)
  have 3: "sorted (map m_timestamp (select_room_messages rid d))"
    by (simp add: select_room_messages_def)
  have ids: "sorted_wrt (<) (map (\<lambda>m. sint (m_id m)) (messages d))"
    using assms(2) by (simp add: message_ids_def)
  have 4: "sorted_wrt (\<lambda>a b. m_timestamp a < m_timestamp b \<or>
                            (m_timestamp a = m_timestamp b \<and> sint (m_id a) < sint (m_id b)))
           (select_room_messages rid d)"
    unfolding select_room_messages_def
    using ids by (intro sort_key_tie_order sorted_wrt_ids_filter)
  have 5: "\<forall>t. filter (\<lambda>m. m_timestamp m = t) (select_room_messages rid d) =
              filter (\<lambda>m. m_timestamp m = t)
                (filter (\<lambda>m. sint (m_room_id m) = rid) (messages d))"
    by (simp add: select_room_messages_def sort_key_stable)
  have 6: "filter (\<lambda>m. sint (m_room_id m) = rid) (messages d) = [] \<longrightarrow>
            (\<exists>j. get_messages rid d = Inr j \<and> envelope_status j = Some 0 \<and>
                 envelope_data j = Some (JList []))"
    by (simp add: get select_room_messages_def envelope_status_def envelope_data_def
          unified_response_def)
  from 1 2 3 4 5 6 show ?thesis by (intro conjI)
qed

theorem get_messages_ordered_witness:
  "1 \<in> set (room_ids tie_db) \<and> sorted_wrt (<) (message_ids tie_db) \<and>
   map m_id (select_room_messages 1 tie_db) = [2, 3, 1] \<and>
   sorted_wrt (\<lambda>a b. m_timestamp a < m_timestamp b \<or>
                      (m_timestamp a = m_timestamp b \<and> sint (m_id a) < sint (m_id b)))
     (select_room_messages 1 tie_db)"
proof -
  have h1: "1 \<in> set (room_ids tie_db)"
    by (simp add: tie_db_def general_db_def room_ids_def)
  have h2: "sorted_wrt (<) (message_ids tie_db)"
    by (simp add: tie_db_def message_ids_def)
  have v: "map m_id (select_room_messages 1 tie_db) = [2, 3, 1]"
    by (simp add: select_room_messages_def tie_db_def)
  show ?thesis
    using h1 h2 v get_messages_ordered [OF h1 h2] by simp
qed

text \<open>
  Claim C8. For a submit request to the room \<open>r\<close> (ids being the primary key of
  \<^verbatim>\<open>chat_rooms\<close>) that succeeds, the effects of the call are the commit followed by one
  push per row of \<^verbatim>\<open>push_tokens\<close>, in table order. A push service that keeps what it is
  handed has received exactly one message per row, in table order: each with the title made
  of the name of \<open>r\<close>, a colon, a space and the request's \<^verbatim>\<open>sender_name\<close>, the body equal
  to the request's \<^verbatim>\<open>message\<close>, and the token of its row. No row is left out, whoever owns
  it: the sender's own tokens are among the destinations. The state the service is left in
  and the \<^verbatim>\<open>notifications\<close> of the response are those of the dispatcher called with that
  title, that body and all stored tokens.
\<close>

theorem notification_content_and_destinations:
  assumes "distinct (map cr_id (chat_rooms d))" and "r \<in> set (chat_rooms d)"
    and "sint (cr_id r) = room_id msg"
    and "succeeded (response (send_message_and_notify send now msg d w))"
  shows "effects (send_message_and_notify send now msg d w) =
           Committed (db_after (send_message_and_notify send now msg d w)) #
           map (\<lambda>p. Pushed \<lparr>fcm_notification =
                               \<lparr>title = cr_name r @ '': '' @ sender_name msg,
                                body = message msg\<rparr>,
                             fcm_token = pt_token p\<rparr>) (push_tokens d) \<and>
         fst (service_after (send_message_and_notify (logged send) now msg d ([], w))) =
           map (\<lambda>p. \<lparr>fcm_notification =
                        \<lparr>title = cr_name r @ '': '' @ sender_name msg, body = message msg\<rparr>,
                      fcm_token = pt_token p\<rparr>) (push_tokens d) \<and>
         service_after (send_message_and_notify send now msg d w) =
           snd (spec_dispatch send (cr_name r @ '': '' @ sender_name msg) (message msg)
                  (map pt_token (push_tokens d)) w) \<and>
         response (send_message_and_notify send now msg d w) =
           Inr (unified_response 0 ''Message sent and notifications processed''
                  (JObj [(''notifications'',
                          JList (map outcome_json (fst (spec_dispatch send
                                   (cr_name r @ '': '' @ sender_name msg) (message msg)
                                   (map pt_token (push_tokens d)) w))))]))"
proof -
  have c: "sqlite_int (sender_id msg)" "sqlite_int (next_id (map m_id (messages d)))"
    using assms(4) by (simp_all add: succeeded_send_message)
  have "select_room (sint (cr_id r)) d = Inr (Some r)"
    using assms(1,2) by (rule select_room_key)
  then have r: "select_room (room_id msg) d = Inr (Some r)"
    using assms(3) by simp
  note v = send_message_and_notify_valid [OF r c]
  have 1: "effects (send_message_and_notify send now msg d w) =
           Committed (db_after (send_message_and_notify send now msg d w)) #
           map (\<lambda>p. Pushed \<lparr>fcm_notification =
                               \<lparr>title = cr_name r @ '': '' @ sender_name msg,
                                body = message msg\<rparr>,
                             fcm_token = pt_token p\<rparr>) (push_tokens d)"
    by (simp add: v stored_tokens_def comp_def)
  have 2: "fst (service_after (send_message_and_notify (logged send) now msg d ([], w))) =
           map (\<lambda>p. \<lparr>fcm_notification =
                        \<lparr>title = cr_name r @ '': '' @ sender_name msg, body = message msg\<rparr>,
                      fcm_token = pt_token p\<rparr>) (push_tokens d)"
    by (simp add: v spec_dispatch_logged stored_tokens_def comp_def)
  have 3: "service_after (send_message_and_notify send now msg d w) =
           snd (spec_dispatch send (cr_name r @ '': '' @ sender_name msg) (message msg)
                  (map pt_token (push_tokens d)) w)"
    by (simp add: v stored_tokens_def)
  have 4: "response (send_message_and_notify send now msg d w) =
           Inr (unified_response 0 ''Message sent and notifications processed''
                  (JObj [(''notifications'',
                          JList (map outcome_json (fst (spec_dispatch send
                                   (cr_name r @ '': '' @ sender_name msg) (message msg)
                                   (map pt_token (push_tokens d)) w))))]))"
    by (simp add: v stored_tokens_def)
  from 1 2 3 4 show ?thesis by (intro conjI)
qed

theorem notification_content_and_destinations_witness:
  "distinct (map cr_id (chat_rooms general_db)) \<and>
   \<lparr>cr_id = 1, cr_name = ''General''\<rparr> \<in> set (chat_rooms general_db) \<and>
   sint (cr_id \<lparr>cr_id = 1, cr_name = ''General''\<rparr>) = room_id hi_msg \<and>
   succeeded (response (send_message_and_notify provider_ok ''2024-11-19 10:00:00'' hi_msg
                          general_db ())) \<and>
   fst (service_after (send_message_and_notify (logged provider_ok) ''2024-11-19 10:00:00''
                         hi_msg general_db ([], ()))) =
     [\<lparr>fcm_notification = \<lparr>title = ''General: alice'', body = ''hi''\<rparr>, fcm_token = ''t1''\<rparr>,
      \<lparr>fcm_notification = \<lparr>title = ''General: alice'', body = ''hi''\<rparr>, fcm_token = ''t2''\<rparr>] \<and>
   response (send_message_and_notify provider_ok ''2024-11-19 10:00:00'' hi_msg
               general_db ()) =
     Inr (unified_response 0 ''Message sent and notifications processed''
            (JObj [(''notifications'',
                    JList [JObj [(''token'', JStr ''t1''), (''response'', JStr ''ok'')],
                           JObj [(''token'', JStr ''t2''), (''response'', JStr ''ok'')]])]))"
proof -
  have h1: "distinct (map cr_id (chat_rooms general_db))"
    by (simp add: general_db_def)
  have h2: "\<lparr>cr_id = 1, cr_name = ''General''\<rparr> \<in> set (chat_rooms general_db)"
    by (simp add: general_db_def)
  have h3: "sint (cr_id \<lparr>cr_id = 1, cr_name = ''General''\<rparr>) = room_id hi_msg"
    by (simp add: hi_msg_def)
  have h4: "succeeded (response (send_message_and_notify provider_ok ''2024-11-19 10:00:00''
      hi_msg general_db ()))"
    by (simp add: succeeded_send_message hi_msg_def general_db_def room_ids_def sqlite_int_def
          next_id_def)
  have t: "push_tokens general_db =
      [\<lparr>pt_id = 1, pt_user_id = 1, pt_token = ''t1''\<rparr>,
       \<lparr>pt_id = 2, pt_user_id = 2, pt_token = ''t2''\<rparr>]"
    by (simp add: general_db_def)
  have m: "sender_name hi_msg = ''alice''" "message hi_msg = ''hi''"
    by (simp_all add: hi_msg_def)
  show ?thesis
    using h1 h2 h3 h4 notification_content_and_destinations [OF h1 h2 h3 h4]
    by (simp add: t m provider_ok_def)
qed

text \<open>
  Claim C9, as the code has it. Running \<^verbatim>\<open>create_db\<close> any number of times after the
  first leaves the database as the first run made it. A run keeps every row of
  \<^verbatim>\<open>chat_rooms\<close> that was there, and a seed row is in the table afterwards exactly when it
  was there before or no row before had its id or its name: \<^verbatim>\<open>INSERT OR IGNORE\<close> skips a
  seed whose id or name is taken, as the theorem after this one shows on a table that holds
  a room 1 of another name. On a table without rooms the run leaves exactly the three
  seeds.
\<close>

theorem create_db_idempotent_seeds:
  "(create_db ^^ n) (create_db d) = create_db d \<and>
   set (chat_rooms d) \<subseteq> set (chat_rooms (create_db d)) \<and>
   (\<forall>s\<in>set seed_rooms.
      (\<lparr>cr_id = fst s, cr_name = snd s\<rparr> \<in> set (chat_rooms (create_db d))) =
      (\<lparr>cr_id = fst s, cr_name = snd s\<rparr> \<in> set (chat_rooms d) \<or>
       \<not> room_conflict s (chat_rooms d))) \<and>
   (chat_rooms d = [] \<longrightarrow>
      chat_rooms (create_db d) =
        [\<lparr>cr_id = 1, cr_name = ''General''\<rparr>, \<lparr>cr_id = 2, cr_name = ''Technology''\<rparr>,
         \<lparr>cr_id = 3, cr_name = ''Random''\<rparr>])"
proof -
  have 2: "set (chat_rooms d) \<subseteq> set (chat_rooms (create_db d))"
    by (auto simp: create_db_chat_rooms seed_rooms_def set_insert_or_ignore_room)
  have 3: "\<forall>s\<in>set seed_rooms.
      (\<lparr>cr_id = fst s, cr_name = snd s\<rparr> \<in> set (chat_rooms (create_db d))) =
      (\<lparr>cr_id = fst s, cr_name = snd s\<rparr> \<in> set (chat_rooms d) \<or>
       \<not> room_conflict s (chat_rooms d))"
    by (simp add: create_db_chat_rooms seed_rooms_def set_insert_or_ignore_room
          room_conflict_insert)
  have 4: "chat_rooms d = [] \<longrightarrow>
      chat_rooms (create_db d) =
        [\<lparr>cr_id = 1, cr_name = ''General''\<rparr>, \<lparr>cr_id = 2, cr_name = ''Technology''\<rparr>,
         \<lparr>cr_id = 3, cr_name = ''Random''\<rparr>]"
    by (simp add: create_db_chat_rooms seed_rooms_def insert_or_ignore_room_def
          room_conflict_def)
  from create_db_funpow 2 3 4 show ?thesis by blast
qed

theorem create_db_seed_ignored:
  "\<lparr>cr_id = 1, cr_name = ''General''\<rparr> \<notin> set (chat_rooms (create_db lobby_db))"
  by (simp add: create_db_chat_rooms lobby_db_def empty_db_def seed_rooms_def
        insert_or_ignore_room_def room_conflict_def)

theorem create_db_idempotent_seeds_witness:
  "(create_db ^^ 2) (create_db empty_db) = create_db empty_db \<and>
   chat_rooms (create_db empty_db) =
     [\<lparr>cr_id = 1, cr_name = ''General''\<rparr>, \<lparr>cr_id = 2, cr_name = ''Technology''\<rparr>,
      \<lparr>cr_id = 3, cr_name = ''Random''\<rparr>]"
proof -
  have h: "chat_rooms empty_db = []" by (simp add: empty_db_def)
  show ?thesis
    using h create_db_idempotent_seeds [of 2 empty_db] by blast
qed

text \<open>
  Claim C10. A register request whose username is that of a row of \<^verbatim>\<open>users\<close> gets the
  envelope with status 1 and the message \<^verbatim>\<open>Username already exists\<close>, and the durable
  database, the \<^verbatim>\<open>users\<close> table with its stored passwords included, is the one before
  the call.
\<close>

theorem register_existing_username:
  assumes "username user \<in> u_username ` set (users d)"
  shows "register H user d = (Inr (unified_response 1 ''Username already exists'' JNull), d)"
proof -
  have "fetchone (filter (\<lambda>u. u_username u = username user) (users d)) \<noteq> None"
    using assms by (auto simp: fetchone_filter_None)
  then show ?thesis
    by (auto simp: register_def connect_def dropped_def)
qed

theorem register_existing_username_witness:
  "username \<lparr>username = ''alice'', password = ''other''\<rparr> \<in> u_username ` set (users general_db) \<and>
   register (\<lambda>s. s) \<lparr>username = ''alice'', password = ''other''\<rparr> general_db =
     (Inr (unified_response 1 ''Username already exists'' JNull), general_db)"
proof -
  have h: "username \<lparr>username = ''alice'', password = ''other''\<rparr> \<in>
      u_username ` set (users general_db)"
    by (simp add: general_db_def)
  show ?thesis
    using h register_existing_username [OF h] by simp
qed

end
